theory Spec2Isabelle
  imports Complex_Main "HOL-Library.Multiset" "HOL-Library.Sublist" "HOL-Library.Product_Lexorder"
begin

section \<open>Planar maximally filtered graph construction\<close>

text \<open>
  A shallow embedding of the PMFG builders of the repository:
  \<^verbatim>\<open>teste.c\<close> (\<^verbatim>\<open>create_pmfg\<close>, \<^verbatim>\<open>is_planar_with_edge\<close>, \<^verbatim>\<open>print_pmfg_stats\<close>),
  \<^verbatim>\<open>teste.cpp\<close> (\<^verbatim>\<open>createPMFG\<close>), \<^verbatim>\<open>teste3.cpp\<close> (\<^verbatim>\<open>PMFGGenerator::createPMFG\<close>),
  \<^verbatim>\<open>unnamed/part_000\<close> (\<^verbatim>\<open>create_pmfg_spqr_only\<close>, \<^verbatim>\<open>create_pmfg_incremental\<close>) and
  \<^verbatim>\<open>unnamed/part_001\<close> (the bounded candidate buffer of \<^verbatim>\<open>main\<close>).

  Modelling decisions.
  \<^item> Weights are C \<^verbatim>\<open>double\<close>s. The builders only compare them with \<^verbatim>\<open><\<close> and \<^verbatim>\<open>>\<close>;
    on finite, non-NaN doubles these form a linear order, so the weight type is any
    type of class \<open>linorder\<close> (instantiated with \<open>real\<close> in the worked examples).
  \<^item> Node indices and counters are C \<^verbatim>\<open>int\<close>s. Node counts and loop indices are never
    negative and are modelled as \<open>nat\<close>; the edge budget \<^verbatim>\<open>3 * n - 6\<close> can be negative and
    is an \<open>int\<close>. In the builders arithmetic is unbounded: they are modelled for node
    counts for which \<^verbatim>\<open>n * (n - 1)\<close> fits the machine \<^verbatim>\<open>int\<close>. The statistics routine
    is modelled with the 32-bit arithmetic of the machine.
  \<^item> An \<^verbatim>\<open>ogdf::Graph\<close> is the list of its edges (source, target) in insertion order;
    \<^verbatim>\<open>newEdge\<close> appends and never refuses an edge (parallel edges and loops are
    representable), \<^verbatim>\<open>delEdge\<close> removes the edge with the given handle.
  \<^item> The planarity tests of the OGDF library (\<^verbatim>\<open>ogdf::isPlanar\<close>, \<^verbatim>\<open>supportEdge\<close>) are
    not part of the repository: they are parameters of the model.
  \<^item> The C library's \<^verbatim>\<open>qsort\<close> and \<^verbatim>\<open>std::sort\<close> leave the order of elements that compare
    equal unspecified: the sorted array is any output that the library contract permits
    for the input. In a whole run the library sort is a function of the comparator and
    the array, a parameter of the run like the planarity test.
\<close>

subsection \<open>Edges and the comparator (teste.c, part_000)\<close>

datatype 'w Edge = Edge (edge_i: nat) (edge_j: nat) (weight: 'w)

definition pair_of :: "'w Edge \<Rightarrow> nat \<times> nat" where
  "pair_of e = (edge_i e, edge_j e)"

definition compare_edges_desc :: "'w::linorder Edge \<Rightarrow> 'w Edge \<Rightarrow> int" where
  "compare_edges_desc edgeA edgeB =
     (if weight edgeA < weight edgeB then 1
      else if weight edgeA > weight edgeB then - 1
      else 0)"

text \<open>
  The contract of \<^verbatim>\<open>qsort(base, nmemb, size, compar)\<close>: the array is permuted so that no
  element is followed by one the comparator places strictly before it.
\<close>

definition qsort_result :: "('a \<Rightarrow> 'a \<Rightarrow> int) \<Rightarrow> 'a list \<Rightarrow> 'a list \<Rightarrow> bool" where
  "qsort_result compar xs ys \<longleftrightarrow>
     mset ys = mset xs \<and> sorted_wrt (\<lambda>a b. compar a b \<le> 0) ys"

text \<open>The nested extraction loops: row \<open>i\<close>, columns \<open>i + 1 .. n - 1\<close>.\<close>

definition extract_edges :: "(nat \<Rightarrow> nat \<Rightarrow> 'w) \<Rightarrow> nat \<Rightarrow> 'w Edge list" where
  "extract_edges proximity_matrix n =
     concat (map (\<lambda>i. map (\<lambda>j. Edge i j (proximity_matrix i j)) [Suc i..<n]) [0..<n])"

subsection \<open>Graphs\<close>

type_synonym graph = "(nat \<times> nat) list"

text \<open>\<^verbatim>\<open>G.newEdge(u, v)\<close> returns the new graph and the handle of the new edge.\<close>

definition newEdge :: "graph \<Rightarrow> nat \<Rightarrow> nat \<Rightarrow> graph \<times> nat" where
  "newEdge G u v = (G @ [(u, v)], length G)"

definition delEdge :: "graph \<Rightarrow> nat \<Rightarrow> graph" where
  "delEdge G e = take e G @ drop (Suc e) G"

definition numberOfEdges :: "graph \<Rightarrow> int" where
  "numberOfEdges G = int (length G)"

subsection \<open>teste.c: the planarity query and the greedy loop\<close>

definition is_planar_with_edge :: "(graph \<Rightarrow> bool) \<Rightarrow> graph \<Rightarrow> nat \<Rightarrow> nat \<Rightarrow> int \<times> graph" where
  "is_planar_with_edge isPlanar G u v =
     (let (G1, e) = newEdge G u v;
          isPlanar_res = isPlanar G1;
          G2 = delEdge G1 e
      in (if isPlanar_res then 1 else 0, G2))"

text \<open>
  The loop \<^verbatim>\<open>for (k = 0; k < edge_count && added_edges < max_edges; k++)\<close> of
  \<^verbatim>\<open>create_pmfg\<close>, over the sorted candidates that are still to be visited. The state
  is the graph and the counter \<^verbatim>\<open>added_edges\<close>.
\<close>

fun create_pmfg_loop ::
  "(graph \<Rightarrow> bool) \<Rightarrow> int \<Rightarrow> 'w Edge list \<Rightarrow> graph \<Rightarrow> int \<Rightarrow> graph \<times> int" where
  "create_pmfg_loop isPlanar max_edges [] pmfg added_edges = (pmfg, added_edges)"
| "create_pmfg_loop isPlanar max_edges (e # edges) pmfg added_edges =
     (if added_edges < max_edges then
        (let (r, pmfg1) = is_planar_with_edge isPlanar pmfg (edge_i e) (edge_j e)
         in if r \<noteq> 0
            then create_pmfg_loop isPlanar max_edges edges
                   (fst (newEdge pmfg1 (edge_i e) (edge_j e))) (added_edges + 1)
            else create_pmfg_loop isPlanar max_edges edges pmfg1 added_edges)
      else (pmfg, added_edges))"

text \<open>
  \<^verbatim>\<open>create_pmfg\<close> after the call of \<^verbatim>\<open>qsort\<close>: \<open>edges\<close> is the sorted array. The budget is
  \<^verbatim>\<open>3 * (n - 2)\<close>.
\<close>

definition create_pmfg :: "(graph \<Rightarrow> bool) \<Rightarrow> nat \<Rightarrow> 'w Edge list \<Rightarrow> graph" where
  "create_pmfg isPlanar n edges =
     fst (create_pmfg_loop isPlanar (3 * (int n - 2)) edges [] 0)"

subsection \<open>part_000: create_pmfg_spqr_only\<close>

text \<open>
  \<^verbatim>\<open>spqr->supportEdge(u, v)\<close> is a library call inside a \<^verbatim>\<open>try\<close> block. The parameter
  \<open>supportEdge\<close> gives its answer on the current graph; \<open>None\<close> stands for an exception
  raised by the call, which the \<^verbatim>\<open>catch\<close> clause turns into skipping the candidate.
\<close>

fun create_pmfg_spqr_only_loop ::
  "(graph \<Rightarrow> nat \<Rightarrow> nat \<Rightarrow> bool option) \<Rightarrow> int \<Rightarrow> 'w Edge list \<Rightarrow> graph \<Rightarrow> int \<Rightarrow> graph \<times> int" where
  "create_pmfg_spqr_only_loop supportEdge max_edges [] pmfg added_edges = (pmfg, added_edges)"
| "create_pmfg_spqr_only_loop supportEdge max_edges (e # edges) pmfg added_edges =
     (if added_edges < max_edges then
        (case supportEdge pmfg (edge_i e) (edge_j e) of
           Some True \<Rightarrow>
             create_pmfg_spqr_only_loop supportEdge max_edges edges
               (fst (newEdge pmfg (edge_i e) (edge_j e))) (added_edges + 1)
         | Some False \<Rightarrow> create_pmfg_spqr_only_loop supportEdge max_edges edges pmfg added_edges
         | None \<Rightarrow> create_pmfg_spqr_only_loop supportEdge max_edges edges pmfg added_edges)
      else (pmfg, added_edges))"

definition create_pmfg_spqr_only ::
  "(graph \<Rightarrow> nat \<Rightarrow> nat \<Rightarrow> bool option) \<Rightarrow> nat \<Rightarrow> 'w Edge list \<Rightarrow> graph" where
  "create_pmfg_spqr_only supportEdge n edges =
     fst (create_pmfg_spqr_only_loop supportEdge (3 * int n - 6) edges [] 0)"

subsection \<open>Whole runs of create_pmfg and create_pmfg_spqr_only\<close>



subsection \<open>part_000: create_pmfg_incremental\<close>

text \<open>
  Phase 1. The state is the graph, the flags \<^verbatim>\<open>node_connected\<close>, the counter
  \<^verbatim>\<open>components\<close> and \<^verbatim>\<open>added_edges\<close>. Both flags are set before \<^verbatim>\<open>components\<close> is
  adjusted, as in the source. The candidates have \<open>i < j < n\<close>, so the flag array is
  always read and written in range.
\<close>

fun phase1_loop ::
  "'w Edge list \<Rightarrow> graph \<Rightarrow> bool list \<Rightarrow> int \<Rightarrow> int \<Rightarrow> graph \<times> bool list \<times> int \<times> int" where
  "phase1_loop [] pmfg node_connected components added_edges =
     (pmfg, node_connected, components, added_edges)"
| "phase1_loop (e # edges) pmfg node_connected components added_edges =
     (if components > 1 then
        (if \<not> node_connected ! edge_i e \<or> \<not> node_connected ! edge_j e then
           (let pmfg1 = fst (newEdge pmfg (edge_i e) (edge_j e));
                node_connected1 = node_connected[edge_i e := True, edge_j e := True];
                components1 = (if \<not> node_connected1 ! edge_i e then components - 1 else components);
                components2 = (if \<not> node_connected1 ! edge_j e then components1 - 1 else components1)
            in phase1_loop edges pmfg1 node_connected1 components2 (added_edges + 1))
         else phase1_loop edges pmfg node_connected components added_edges)
      else (pmfg, node_connected, components, added_edges))"

definition phase1 :: "nat \<Rightarrow> 'w Edge list \<Rightarrow> graph \<times> bool list \<times> int \<times> int" where
  "phase1 n edges = phase1_loop edges [] (replicate n False) (int n) 0"

text \<open>The scan \<^verbatim>\<open>for (ogdf::edge e : pmfg->edges)\<close> that looks for the pair in either direction.\<close>

definition edge_exists :: "graph \<Rightarrow> nat \<Rightarrow> nat \<Rightarrow> bool" where
  "edge_exists pmfg i j = list_ex (\<lambda>(s, t). (s = i \<and> t = j) \<or> (s = j \<and> t = i)) pmfg"

text \<open>
  Phase 2. There is no \<^verbatim>\<open>try\<close> block here: an exception of \<^verbatim>\<open>supportEdge\<close> leaves the
  function, which is the result \<open>None\<close>.
\<close>

fun phase2_loop ::
  "(graph \<Rightarrow> nat \<Rightarrow> nat \<Rightarrow> bool option) \<Rightarrow> int \<Rightarrow> 'w Edge list \<Rightarrow> graph \<Rightarrow> int \<Rightarrow> (graph \<times> int) option" where
  "phase2_loop supportEdge max_edges [] pmfg added_edges = Some (pmfg, added_edges)"
| "phase2_loop supportEdge max_edges (e # edges) pmfg added_edges =
     (if added_edges < max_edges then
        (if edge_exists pmfg (edge_i e) (edge_j e)
         then phase2_loop supportEdge max_edges edges pmfg added_edges
         else (case supportEdge pmfg (edge_i e) (edge_j e) of
                 None \<Rightarrow> None
               | Some True \<Rightarrow>
                   phase2_loop supportEdge max_edges edges
                     (fst (newEdge pmfg (edge_i e) (edge_j e))) (added_edges + 1)
               | Some False \<Rightarrow> phase2_loop supportEdge max_edges edges pmfg added_edges))
      else Some (pmfg, added_edges))"

definition create_pmfg_incremental ::
  "(graph \<Rightarrow> nat \<Rightarrow> nat \<Rightarrow> bool option) \<Rightarrow> nat \<Rightarrow> 'w Edge list \<Rightarrow> graph option" where
  "create_pmfg_incremental supportEdge n edges =
     (case phase1 n edges of
        (pmfg, node_connected, components, added_edges) \<Rightarrow>
          map_option fst (phase2_loop supportEdge (3 * int n - 6) edges pmfg added_edges))"

subsection \<open>teste.cpp: createPMFG\<close>

text \<open>
  The candidates are tuples (weight, u, v). \<^verbatim>\<open>weights[{i, j}]\<close> on a \<^verbatim>\<open>std::map\<close> yields the
  stored value, or a value-initialised 0.0 for a key that is absent.
\<close>

definition weights_at :: "(nat \<times> nat \<rightharpoonup> 'w::zero) \<Rightarrow> nat \<Rightarrow> nat \<Rightarrow> 'w" where
  "weights_at weights i j = (case weights (i, j) of Some w \<Rightarrow> w | None \<Rightarrow> 0)"

definition complete_edges :: "(nat \<times> nat \<rightharpoonup> 'w::zero) \<Rightarrow> nat \<Rightarrow> ('w \<times> nat \<times> nat) list" where
  "complete_edges weights n =
     concat (map (\<lambda>i. map (\<lambda>j. (weights_at weights i j, i, j)) [Suc i..<n]) [0..<n])"

text \<open>
  \<^verbatim>\<open>std::sort(edges.rbegin(), edges.rend())\<close> sorts the reversed view into ascending
  order of the tuples' lexicographic \<^verbatim>\<open>operator<\<close>; read forwards the vector is then
  descending. Distinct tuples never compare equal, so the result is determined.
\<close>

definition sort_rbegin_rend :: "'a::linorder list \<Rightarrow> 'a list" where
  "sort_rbegin_rend edges = rev (sort edges)"

text \<open>
  The loop of \<^verbatim>\<open>createPMFG\<close>. \<open>component\<close> is the \<^verbatim>\<open>NodeArray<int>\<close>, indexed by node.
  \<open>spqr_check\<close> is the outcome of building a \<^verbatim>\<open>DynamicPlanarSPQRTree\<close> on the graph with
  the tentative edge and comparing the node counts.
\<close>

fun createPMFG_loop ::
  "(graph \<Rightarrow> bool) \<Rightarrow> int \<Rightarrow> ('w \<times> nat \<times> nat) list \<Rightarrow> graph \<Rightarrow> nat list \<Rightarrow> graph" where
  "createPMFG_loop spqr_check budget [] G component = G"
| "createPMFG_loop spqr_check budget ((w, u, v) # edges) G component =
     (let (G1, component1) =
            (if component ! u \<noteq> component ! v then
               (let (G', e) = newEdge G u v
                in if spqr_check G'
                   then (G', map (\<lambda>c. if c = component ! v then component ! u else c) component)
                   else (delEdge G' e, component))
             else (G, component))
      in if numberOfEdges G1 \<ge> budget then G1
         else createPMFG_loop spqr_check budget edges G1 component1)"

definition createPMFG :: "(graph \<Rightarrow> bool) \<Rightarrow> (nat \<times> nat \<rightharpoonup> 'w::{linorder,zero}) \<Rightarrow> nat \<Rightarrow> graph" where
  "createPMFG spqr_check weights n =
     createPMFG_loop spqr_check (3 * int n - 6)
       (sort_rbegin_rend (complete_edges weights n)) [] [0..<n]"

subsection \<open>teste3.cpp: PMFGGenerator::createPMFG\<close>

text \<open>Edges read from an edge list: the node indices are arbitrary \<^verbatim>\<open>int\<close>s.\<close>

datatype 'w ListEdge = ListEdge (source: int) (target: int) (list_weight: 'w)

record generator =
  graph :: graph
  addedEdges :: "(int \<times> int) set"
  numNodes :: int

definition normalizeEdge :: "int \<Rightarrow> int \<Rightarrow> int \<times> int" where
  "normalizeEdge src tgt = (if src < tgt then (src, tgt) else (tgt, src))"

text \<open>The branch of the loop body that a candidate takes.\<close>

datatype branch = Added | InvalidIndex | Duplicate | NotSupported | Exception

text \<open>One iteration of the \<^verbatim>\<open>for\<close> loop, for a candidate that the loop guard lets in.\<close>

definition createPMFG_body ::
  "(graph \<Rightarrow> nat \<Rightarrow> nat \<Rightarrow> bool option) \<Rightarrow> 'w ListEdge \<Rightarrow> generator \<times> int \<Rightarrow> branch \<times> generator \<times> int" where
  "createPMFG_body supportEdge edge st =
     (case st of (g, addedEdgeCount) \<Rightarrow>
        if source edge \<ge> numNodes g \<or> target edge \<ge> numNodes g \<or> source edge < 0 \<or> target edge < 0
        then (InvalidIndex, g, addedEdgeCount)
        else let normalizedEdge = normalizeEdge (source edge) (target edge) in
          if normalizedEdge \<in> addedEdges g then (Duplicate, g, addedEdgeCount)
          else (case supportEdge (graph g) (nat (source edge)) (nat (target edge)) of
                  None \<Rightarrow> (Exception, g, addedEdgeCount)
                | Some False \<Rightarrow> (NotSupported, g, addedEdgeCount)
                | Some True \<Rightarrow>
                    (Added,
                     g\<lparr>graph := fst (newEdge (graph g) (nat (source edge)) (nat (target edge))),
                       addedEdges := insert normalizedEdge (addedEdges g)\<rparr>,
                     addedEdgeCount + 1)))"

fun createPMFG_edges ::
  "(graph \<Rightarrow> nat \<Rightarrow> nat \<Rightarrow> bool option) \<Rightarrow> int \<Rightarrow> 'w ListEdge list \<Rightarrow> generator \<times> int \<Rightarrow> generator \<times> int" where
  "createPMFG_edges supportEdge maxEdges [] st = st"
| "createPMFG_edges supportEdge maxEdges (edge # sortedEdges) st =
     (if snd st < maxEdges
      then createPMFG_edges supportEdge maxEdges sortedEdges (snd (createPMFG_body supportEdge edge st))
      else st)"

definition initializeGraph :: "int \<Rightarrow> generator" where
  "initializeGraph nodes = \<lparr>graph = [], addedEdges = {}, numNodes = nodes\<rparr>"

definition generator_createPMFG ::
  "(graph \<Rightarrow> nat \<Rightarrow> nat \<Rightarrow> bool option) \<Rightarrow> generator \<Rightarrow> 'w ListEdge list \<Rightarrow> graph" where
  "generator_createPMFG supportEdge g sortedEdges =
     graph (fst (createPMFG_edges supportEdge (3 * numNodes g - 6) sortedEdges (g, 0)))"

text \<open>
  The call of \<^verbatim>\<open>std::sort(edges.begin(), edges.end())\<close> in \<^verbatim>\<open>main\<close> uses \<^verbatim>\<open>Edge::operator<\<close>,
  which compares the weights only (greater weight first). The contract of \<^verbatim>\<open>std::sort\<close>:
  a permutation in which no element is followed by one that is less than it.
\<close>

definition edge_less :: "'w::linorder ListEdge \<Rightarrow> 'w ListEdge \<Rightarrow> bool" where
  "edge_less e other \<longleftrightarrow> list_weight e > list_weight other"

definition std_sort_result :: "('a \<Rightarrow> 'a \<Rightarrow> bool) \<Rightarrow> 'a list \<Rightarrow> 'a list \<Rightarrow> bool" where
  "std_sort_result lt xs ys \<longleftrightarrow>
     mset ys = mset xs \<and> sorted_wrt (\<lambda>a b. \<not> lt b a) ys"

subsection \<open>part_001: the bounded candidate buffer and the tree loop of main\<close>

text \<open>
  \<^verbatim>\<open>priority_queue<Edge>\<close> orders by \<^verbatim>\<open>Edge::operator<\<close> (\<^verbatim>\<open>weight < other.weight\<close>), so
  \<^verbatim>\<open>top()\<close> is an element of greatest weight. The queue is modelled as the list of its
  elements in the order in which \<^verbatim>\<open>pop()\<close> would deliver them: greatest weight first.
  The source does not determine the order among equal weights (the library's heap
  does); the model puts a new element behind the elements of the same weight, so it
  speaks for the code on inputs whose finite weights are pairwise distinct. The \<^verbatim>\<open>Edge\<close> of this file has the
  fields \<^verbatim>\<open>source, dest, weight\<close>: here \<open>edge_i, edge_j, weight\<close>.
\<close>

fun pq_push :: "'w::linorder Edge \<Rightarrow> 'w Edge list \<Rightarrow> 'w Edge list" where
  "pq_push e [] = [e]"
| "pq_push e (x # q) = (if weight x < weight e then e # x # q else x # pq_push e q)"

text \<open>
  The body of the innermost \<^verbatim>\<open>if\<close>: push while the queue is below \<^verbatim>\<open>bufferSize\<close>,
  otherwise compare with \<^verbatim>\<open>top()\<close> and replace it. \<^verbatim>\<open>top()\<close> of an empty queue is
  undefined: the result \<open>None\<close>.
\<close>

definition offer :: "int \<Rightarrow> 'w::linorder Edge \<Rightarrow> 'w Edge list option \<Rightarrow> 'w Edge list option" where
  "offer bufferSize edge topEdges =
     (case topEdges of
        None \<Rightarrow> None
      | Some q \<Rightarrow>
          if int (length q) < bufferSize then Some (pq_push edge q)
          else (case q of
                  [] \<Rightarrow> None
                | t # rest \<Rightarrow> if weight edge > weight t then Some (pq_push edge rest) else Some q))"

text \<open>
  A line of the file is the list of its cells after the row name; a cell is \<open>None\<close>
  when \<^verbatim>\<open>stod\<close> fails on it or its value is NaN or infinite.
\<close>

definition scan_row ::
  "int \<Rightarrow> nat \<Rightarrow> nat \<Rightarrow> 'w::linorder option list \<Rightarrow> 'w Edge list option \<Rightarrow> 'w Edge list option" where
  "scan_row bufferSize n row cells topEdges =
     fold (\<lambda>(col, cell) q.
             if col > row
             then (case cell of Some w \<Rightarrow> offer bufferSize (Edge row col w) q | None \<Rightarrow> q)
             else q)
       (enumerate 0 (take n cells)) topEdges"

definition scan_matrix ::
  "int \<Rightarrow> nat \<Rightarrow> 'w::linorder option list list \<Rightarrow> 'w Edge list option" where
  "scan_matrix bufferSize n lines =
     fold (\<lambda>(row, cells) q. scan_row bufferSize n row cells q)
       (enumerate 0 (take n lines)) (Some [])"

text \<open>
  The queue is emptied into a vector (greatest weight first) and the vector is
  reversed.
\<close>

definition top_edges :: "nat \<Rightarrow> 'w::linorder option list list \<Rightarrow> 'w Edge list option" where
  "top_edges n lines =
     (let maxEdges = 3 * (int n - 2);
          bufferSize = min (maxEdges * 10) 100000
      in map_option rev (scan_matrix bufferSize n lines))"

text \<open>
  Modelled from the spec: the class \<^verbatim>\<open>UnionFind\<close> (\<^verbatim>\<open>find\<close>, \<^verbatim>\<open>unionBlocks\<close>) that
  \<^verbatim>\<open>main\<close> uses is declared nowhere in the sources; the specification calls it a
  disjoint-set/union-find structure over the nodes. It is the list of the nodes'
  representatives: \<open>find\<close> reads it and \<open>unionBlocks\<close> gives the two blocks one
  representative.
\<close>

definition uf_init :: "nat \<Rightarrow> nat list" where
  "uf_init n = [0..<n]"

definition uf_find :: "nat list \<Rightarrow> nat \<Rightarrow> nat" where
  "uf_find uf x = uf ! x"

definition unionBlocks :: "nat list \<Rightarrow> nat \<Rightarrow> nat \<Rightarrow> nat list" where
  "unionBlocks uf a b = map (\<lambda>r. if r = uf_find uf b then uf_find uf a else r) uf"

text \<open>The loop \<^verbatim>\<open>for (i = 0; i < edges.size() && edgesAdded < n-1; i++)\<close> of \<^verbatim>\<open>main\<close>.\<close>

fun tree_loop :: "int \<Rightarrow> 'w Edge list \<Rightarrow> graph \<Rightarrow> nat list \<Rightarrow> int \<Rightarrow> graph \<times> nat list \<times> int" where
  "tree_loop n [] G uf edgesAdded = (G, uf, edgesAdded)"
| "tree_loop n (e # edges) G uf edgesAdded =
     (if edgesAdded < n - 1 then
        (if uf_find uf (edge_i e) \<noteq> uf_find uf (edge_j e)
         then tree_loop n edges (fst (newEdge G (edge_i e) (edge_j e)))
                (unionBlocks uf (edge_i e) (edge_j e)) (edgesAdded + 1)
         else tree_loop n edges G uf edgesAdded)
      else (G, uf, edgesAdded))"

subsection \<open>teste.c: print_pmfg_stats\<close>

text \<open>
  The arithmetic of \<^verbatim>\<open>print_pmfg_stats\<close> is that of the 32-bit \<^verbatim>\<open>int\<close>: a sum, difference
  or product that leaves the range is reduced modulo \<open>2^32\<close> into it, which is what the
  compiled code computes. \<open>int32\<close> is that reduction.
\<close>

definition int32 :: "int \<Rightarrow> int" where
  "int32 x = (x + 2147483648) mod 4294967296 - 2147483648"

text \<open>
  The divisors: \<^verbatim>\<open>3 * (n - 2)\<close> (part_000 writes it as \<^verbatim>\<open>3 * n - 6\<close>, the same value
  modulo \<open>2^32\<close>) and \<^verbatim>\<open>n * (n - 1) / 2.0\<close>, an \<^verbatim>\<open>int\<close> product that is converted to
  \<^verbatim>\<open>double\<close> and halved.
\<close>

definition max_planar_edges :: "int \<Rightarrow> int" where
  "max_planar_edges n = int32 (3 * int32 (n - 2))"

definition density_divisor :: "int \<Rightarrow> real" where
  "density_divisor n = real_of_int (int32 (n * int32 (n - 1))) / 2"

text \<open>
  The two quotients that are printed, as real numbers. A quotient is \<open>None\<close> when its
  divisor is zero: the floating-point division then yields NaN or an infinity, not a
  number.
\<close>

definition print_pmfg_stats :: "int \<Rightarrow> int \<Rightarrow> real option \<times> real option" where
  "print_pmfg_stats num_edges n =
     (if max_planar_edges n = 0 then None
      else Some (real_of_int num_edges / real_of_int (max_planar_edges n) * 100),
      if density_divisor n = 0 then None
      else Some (real_of_int num_edges / density_divisor n))"

subsection \<open>Properties of graphs and of candidate sequences\<close>

definition no_self_loops :: "graph \<Rightarrow> bool" where
  "no_self_loops G = list_all (\<lambda>(u, v). u \<noteq> v) G"

definition no_duplicate_edges :: "graph \<Rightarrow> bool" where
  "no_duplicate_edges G = distinct (map (\<lambda>(u, v). (min u v, max u v)) G)"

text \<open>Descending weights, equal weights in ascending order of the pair (i, j).\<close>

definition descending_ties_ascending :: "('w::linorder \<times> nat \<times> nat) list \<Rightarrow> bool" where
  "descending_ties_ascending es =
     sorted_wrt (\<lambda>a b. fst a > fst b \<or> (fst a = fst b \<and> snd a < snd b)) es"

text \<open>Descending weights, equal weights in descending order of the pair (i, j).\<close>

definition descending_ties_descending :: "('w::linorder \<times> nat \<times> nat) list \<Rightarrow> bool" where
  "descending_ties_descending es =
     sorted_wrt (\<lambda>a b. fst a > fst b \<or> (fst a = fst b \<and> snd a > snd b)) es"

subsection \<open>Worked inputs\<close>

text \<open>The four-node matrix of the end-to-end example, and its candidates in sorted order.\<close>

definition example_matrix :: "nat \<Rightarrow> nat \<Rightarrow> real" where
  "example_matrix i j =
     (let p = (min i j, max i j) in
      if p = (0, 1) then 0.9 else if p = (0, 2) then 0.8 else if p = (0, 3) then 0.1
      else if p = (1, 2) then 0.7 else if p = (1, 3) then 0.6 else if p = (2, 3) then 0.95
      else 0)"

definition example_sorted :: "real Edge list" where
  "example_sorted =
     [Edge 2 3 0.95, Edge 0 1 0.9, Edge 0 2 0.8, Edge 1 2 0.7, Edge 1 3 0.6, Edge 0 3 0.1]"

definition example_weights :: "nat \<times> nat \<rightharpoonup> real" where
  "example_weights =
     [(0, 1) \<mapsto> 0.9, (0, 2) \<mapsto> 0.8, (0, 3) \<mapsto> 0.1, (1, 2) \<mapsto> 0.7, (1, 3) \<mapsto> 0.6, (2, 3) \<mapsto> 0.95]"

text \<open>All weights equal.\<close>

definition tied_matrix :: "nat \<Rightarrow> nat \<Rightarrow> real" where
  "tied_matrix i j = 1"

definition tied_weights :: "nat \<times> nat \<rightharpoonup> real" where
  "tied_weights = (\<lambda>p. Some 1)"

text \<open>Oracles that accept every edge: every graph on at most four nodes is planar.\<close>

definition always_planar :: "graph \<Rightarrow> bool" where
  "always_planar G = True"

definition always_supported :: "graph \<Rightarrow> nat \<Rightarrow> nat \<Rightarrow> bool option" where
  "always_supported G u v = Some True"

text \<open>An edge list that names the pair (0, 1) twice, and a three-node matrix file.\<close>

definition duplicate_input :: "real ListEdge list" where
  "duplicate_input = [ListEdge 0 1 0.9, ListEdge 1 0 0.9]"

definition three_node_file :: "real option list list" where
  "three_node_file =
     [[Some 0, Some 0.9, Some 0.8],
      [Some 0.9, Some 0, Some 0.7],
      [Some 0.8, Some 0.7, Some 0]]"






text \<open>
  The matrix file whose cell in row \<open>row\<close> and column \<open>col\<close> holds \<open>W row col\<close>, and a
  symmetric matrix whose upper triangle ascends along the scan of the file.
\<close>

definition candidates_of :: "(nat \<Rightarrow> nat \<Rightarrow> 'w) \<Rightarrow> nat \<Rightarrow> 'w option list list" where
  "candidates_of W n = map (\<lambda>row. map (\<lambda>col. Some (W row col)) [0..<n]) [0..<n]"

definition ascending_matrix :: "nat \<Rightarrow> nat \<Rightarrow> real" where
  "ascending_matrix i j = real (min i j * 59 + max i j)"

section \<open>Frame of the planarity query\<close>








section \<open>The candidate sequence\<close>

lemma set_extract_edges:
  "set (extract_edges W n) = {Edge i j (W i j) | i j. i < j \<and> j < n}"
  by (fastforce simp: extract_edges_def)

lemma distinct_pairs_extract_edges: "distinct (map pair_of (extract_edges W n))"
proof -
  have "map pair_of (extract_edges W n) = concat (map (\<lambda>i. map (\<lambda>j. (i, j)) [Suc i..<n]) [0..<n])"
    by (simp add: extract_edges_def map_concat pair_of_def comp_def)
  moreover have "distinct (concat (map (\<lambda>i. map (\<lambda>j. (i, j)) [Suc i..<n]) [0..<n]))"
  proof (rule distinct_concat)
    show "distinct (map (\<lambda>i. map (Pair i) [Suc i..<n]) [0..<n])"
      by (auto simp: distinct_map inj_on_def dest: arg_cong[where f=length])
  qed (auto simp: distinct_map inj_on_def)
  ultimately show ?thesis by simp
qed

lemma sum_upper_triangle: "(\<Sum>i = 0..<n. n - Suc i) = n * (n - 1) div 2"
proof (induction n)
  case 0
  show ?case by simp
next
  case (Suc n)
  have "(\<Sum>i = 0..<Suc n. Suc n - Suc i) = (\<Sum>i = 0..<n. n - i)"
    by simp
  also have "\<dots> = (\<Sum>i = 0..<n. (n - Suc i) + 1)"
    by (rule sum.cong) auto
  also have "\<dots> = (\<Sum>i = 0..<n. n - Suc i) + n"
    by (simp add: sum_Suc)
  also have "\<dots> = n * (n - 1) div 2 + n"
    by (simp add: Suc.IH)
  also have "\<dots> = Suc n * (Suc n - 1) div 2"
    by (cases n) auto
  finally show ?case .
qed

lemma length_extract_edges: "length (extract_edges W n) = n * (n - 1) div 2"
proof -
  have "length (extract_edges W n) = (\<Sum>i\<leftarrow>[0..<n]. n - Suc i)"
    by (simp add: extract_edges_def length_concat comp_def)
  also have "\<dots> = (\<Sum>i = 0..<n. n - Suc i)"
    by (simp add: interv_sum_list_conv_sum_set_nat)
  finally show ?thesis by (simp add: sum_upper_triangle)
qed

text \<open>What every array that \<^verbatim>\<open>qsort\<close> may return from the extracted candidates has.\<close>

lemma qsort_descending:
  assumes "qsort_result compare_edges_desc (extract_edges W n) edges"
  shows "length edges = n * (n - 1) div 2 \<and>
         set edges = {Edge i j (W i j) | i j. i < j \<and> j < n} \<and>
         sorted_wrt (\<lambda>a b. weight a \<ge> weight b) edges"
proof -
  have c: "(compare_edges_desc a b \<le> 0) = (weight a \<ge> weight b)" for a b :: "'a Edge"
    by (auto simp: compare_edges_desc_def)
  have m: "mset edges = mset (extract_edges W n)"
    using assms by (simp add: qsort_result_def)
  have "length edges = length (extract_edges W n)"
    using m by (rule mset_eq_length)
  moreover have "set edges = set (extract_edges W n)"
    using m by (rule mset_eq_setD)
  ultimately show ?thesis
    using assms by (simp add: qsort_result_def c length_extract_edges set_extract_edges)
qed

lemma set_complete_edges:
  "set (complete_edges weights n) = {(weights_at weights i j, i, j) | i j. i < j \<and> j < n}"
  by (fastforce simp: complete_edges_def)

lemma length_complete_edges: "length (complete_edges weights n) = n * (n - 1) div 2"
proof -
  have "length (complete_edges weights n) = (\<Sum>i\<leftarrow>[0..<n]. n - Suc i)"
    by (simp add: complete_edges_def length_concat comp_def)
  also have "\<dots> = (\<Sum>i = 0..<n. n - Suc i)"
    by (simp add: interv_sum_list_conv_sum_set_nat)
  finally show ?thesis by (simp add: sum_upper_triangle)
qed

lemma distinct_complete_edges: "distinct (complete_edges weights n)"
proof -
  have "map snd (complete_edges weights n) = map pair_of (extract_edges (weights_at weights) n)"
    by (simp add: complete_edges_def extract_edges_def map_concat comp_def pair_of_def)
  then have "distinct (map snd (complete_edges weights n))"
    by (simp add: distinct_pairs_extract_edges)
  then show ?thesis by (rule distinct_map[THEN iffD1, THEN conjunct1])
qed

text \<open>
  Claim C3, as the code has it. The candidate sequence of \<^verbatim>\<open>createPMFG\<close> (teste.cpp) has
  \<open>n (n - 1) / 2\<close> entries, namely every pair \<open>i < j < n\<close> with its weight, in descending
  order of weight; candidates of equal weight stand in descending order of \<open>(i, j)\<close>,
  because the tuples (weight, i, j) are sorted through reverse iterators. The sequence
  is a function of the weights.
\<close>

theorem candidate_order:
  "length (sort_rbegin_rend (complete_edges weights n)) = n * (n - 1) div 2 \<and>
   set (sort_rbegin_rend (complete_edges weights n)) =
     {(weights_at weights i j, i, j) | i j. i < j \<and> j < n} \<and>
   descending_ties_descending (sort_rbegin_rend (complete_edges weights n))"
proof -
  let ?es = "complete_edges weights n"
  have "sorted_wrt (<) (sort ?es)"
    using distinct_complete_edges[of weights n] by (simp add: strict_sorted_iff)
  then have "sorted_wrt (\<lambda>a b. b < a) (rev (sort ?es))"
    by (simp add: sorted_wrt_rev)
  then have "sorted_wrt (\<lambda>a b. fst a > fst b \<or> (fst a = fst b \<and> snd a > snd b)) (rev (sort ?es))"
    by (rule sorted_wrt_mono_rel[rotated]) (auto simp: less_prod_def)
  then show ?thesis
    by (simp add: sort_rbegin_rend_def descending_ties_descending_def length_complete_edges
        set_complete_edges)
qed

lemma tied_candidates:
  "sort_rbegin_rend (complete_edges tied_weights 3) = [(1, 1, 2), (1, 0, 2), (1, 0, 1)]"
  by (simp add: sort_rbegin_rend_def complete_edges_def weights_at_def tied_weights_def upt_rec
      less_eq_prod_def less_prod_def)

text \<open>
  With all weights equal the pair (1, 2) comes first and (0, 1) last: equal weights are
  not in ascending order of \<open>(i, j)\<close>.
\<close>

theorem candidate_order_counterexample:
  "\<not> descending_ties_ascending (sort_rbegin_rend (complete_edges tied_weights 3))"
  by (simp add: tied_candidates descending_ties_ascending_def)

section \<open>The greedy loops of teste.c and create_pmfg_spqr_only\<close>

lemma create_pmfg_loop_exit: "\<not> a < b \<Longrightarrow> create_pmfg_loop P b es G a = (G, a)"
  by (cases es) auto

lemma create_pmfg_loop_append:
  "create_pmfg_loop P b (es1 @ es2) G a =
     (case create_pmfg_loop P b es1 G a of (G', a') \<Rightarrow> create_pmfg_loop P b es2 G' a')"
proof (induction es1 arbitrary: G a)
  case Nil show ?case by simp
next
  case (Cons e es1)
  show ?case
  proof (cases "a < b")
    case True
    then show ?thesis using Cons.IH
      by (simp add: is_planar_with_edge_def newEdge_def delEdge_def)
  next
    case False
    then show ?thesis by (simp add: create_pmfg_loop_exit)
  qed
qed

lemma create_pmfg_loop_inv:
  assumes "a = int (length G)" "a \<le> b" "Q G"
    and step: "\<And>G u v. Q G \<Longrightarrow> P (G @ [(u, v)]) \<Longrightarrow> Q (G @ [(u, v)])"
  shows "\<exists>H. create_pmfg_loop P b es G a = (G @ H, int (length (G @ H))) \<and> subseq H (map pair_of es)
           \<and> int (length (G @ H)) \<le> b \<and> Q (G @ H)"
  using assms(1-3)
proof (induction es arbitrary: G a)
  case Nil
  then show ?case by simp
next
  case (Cons e es)
  have pe: "pair_of e = (edge_i e, edge_j e)" by (simp add: pair_of_def)
  show ?case
  proof (cases "a < b \<and> P (G @ [(edge_i e, edge_j e)])")
    case True
    have "\<exists>H. create_pmfg_loop P b es (G @ [(edge_i e, edge_j e)]) (a + 1) =
        ((G @ [(edge_i e, edge_j e)]) @ H, int (length ((G @ [(edge_i e, edge_j e)]) @ H))) \<and>
        subseq H (map pair_of es) \<and> int (length ((G @ [(edge_i e, edge_j e)]) @ H)) \<le> b \<and>
        Q ((G @ [(edge_i e, edge_j e)]) @ H)"
      by (rule Cons.IH) (use True Cons.prems step in auto)
    then obtain H where H: "create_pmfg_loop P b es (G @ [(edge_i e, edge_j e)]) (a + 1) =
        ((G @ [(edge_i e, edge_j e)]) @ H, int (length ((G @ [(edge_i e, edge_j e)]) @ H)))"
        "subseq H (map pair_of es)" "int (length ((G @ [(edge_i e, edge_j e)]) @ H)) \<le> b"
        "Q ((G @ [(edge_i e, edge_j e)]) @ H)" by blast
    show ?thesis
      apply (rule exI[where x="(edge_i e, edge_j e) # H"])
      using True H by (simp add: is_planar_with_edge_def newEdge_def delEdge_def pe)
  next
    case False
    show ?thesis
    proof (cases "a < b")
      case True
      with False have np: "\<not> P (G @ [(edge_i e, edge_j e)])" by simp
      from Cons.IH[OF Cons.prems] obtain H where H: "create_pmfg_loop P b es G a = (G @ H, int (length (G @ H)))"
        "subseq H (map pair_of es)" "int (length (G @ H)) \<le> b" "Q (G @ H)" by blast
      show ?thesis
        apply (rule exI[where x=H])
        using True np H by (auto simp: is_planar_with_edge_def newEdge_def delEdge_def)
    next
      case False
      then show ?thesis using Cons.prems by (intro exI[where x="[]"]) simp
    qed
  qed
qed

lemma spqr_loop_as_query_loop:
  "create_pmfg_spqr_only_loop supportEdge b es G a =
   create_pmfg_loop (\<lambda>H. supportEdge (butlast H) (fst (last H)) (snd (last H)) = Some True) b es G a"
  by (induction es arbitrary: G a)
     (auto simp: is_planar_with_edge_def newEdge_def delEdge_def split: option.splits bool.splits)

lemma subseq_distinct: "subseq xs ys \<Longrightarrow> distinct ys \<Longrightarrow> distinct xs"
  by (induction rule: list_emb.induct) (auto elim: list_emb_set)

lemma subseq_set: "subseq xs ys \<Longrightarrow> set xs \<subseteq> set ys"
  by (auto elim: list_emb_set)

lemma candidates_ordered:
  assumes "mset edges = mset (extract_edges W n)"
  shows "distinct (map pair_of (take m edges))"
    and "\<forall>(u, v) \<in> set (map pair_of (take m edges)). u < v"
proof -
  have "mset (map pair_of edges) = mset (map pair_of (extract_edges W n))"
    using assms by simp
  then have "distinct (map pair_of edges)"
    using distinct_pairs_extract_edges mset_eq_imp_distinct_iff by blast
  then show "distinct (map pair_of (take m edges))"
    by (simp add: take_map[symmetric])
  have "set edges = set (extract_edges W n)"
    using assms by (rule mset_eq_setD)
  then have "\<forall>e \<in> set edges. edge_i e < edge_j e"
    by (auto simp: set_extract_edges)
  then show "\<forall>(u, v) \<in> set (map pair_of (take m edges)). u < v"
    by (auto simp: pair_of_def dest: in_set_takeD)
qed

lemma simple_of_subseq:
  assumes "subseq H cs" "distinct cs" "\<forall>(u, v) \<in> set cs. u < v"
  shows "no_duplicate_edges H \<and> no_self_loops H"
proof -
  have d: "distinct H" using assms(1,2) by (rule subseq_distinct)
  have o: "\<forall>(u, v) \<in> set H. u < v" using assms(1,3) subseq_set by blast
  then have "map (\<lambda>(u, v). (min u v, max u v)) H = H"
    by (intro map_idI) auto
  with d have "no_duplicate_edges H" by (simp add: no_duplicate_edges_def)
  moreover have "no_self_loops H" using o by (auto simp: no_self_loops_def list_all_iff)
  ultimately show ?thesis by simp
qed

lemma query_loop_run:
  assumes "3 \<le> n" "Q []"
    and step: "\<And>G u v. Q G \<Longrightarrow> P (G @ [(u, v)]) \<Longrightarrow> Q (G @ [(u, v)])"
    and "qsort_result compare_edges_desc (extract_edges W n) edges"
    and "Gm = fst (create_pmfg_loop P (3 * int n - 6) (take m edges) [] 0)"
  shows "Q Gm \<and> no_duplicate_edges Gm \<and> no_self_loops Gm \<and> numberOfEdges Gm \<le> 3 * int n - 6 \<and>
         (numberOfEdges Gm = 3 * int n - 6 \<longrightarrow>
            fst (create_pmfg_loop P (3 * int n - 6) edges [] 0) = Gm)"
proof -
  let ?b = "3 * int n - 6"
  have ms: "mset edges = mset (extract_edges W n)"
    using assms(4) by (simp add: qsort_result_def)
  have "\<exists>H. create_pmfg_loop P ?b (take m edges) [] 0 = ([] @ H, int (length ([] @ H))) \<and>
          subseq H (map pair_of (take m edges)) \<and> int (length ([] @ H)) \<le> ?b \<and> Q ([] @ H)"
    by (rule create_pmfg_loop_inv) (use assms(1,2) step in auto)
  then obtain H where H: "create_pmfg_loop P ?b (take m edges) [] 0 = (H, int (length H))"
    "subseq H (map pair_of (take m edges))" "int (length H) \<le> ?b" "Q H" by auto
  have Gm: "Gm = H" using assms(5) H(1) by simp
  have simple: "no_duplicate_edges H \<and> no_self_loops H"
    using H(2) candidates_ordered[OF ms] by (rule simple_of_subseq)
  have "create_pmfg_loop P ?b edges [] 0 = create_pmfg_loop P ?b (take m edges @ drop m edges) [] 0"
    by simp
  also have "\<dots> = create_pmfg_loop P ?b (drop m edges) H (int (length H))"
    by (simp only: create_pmfg_loop_append H(1) prod.case)
  finally have fin: "create_pmfg_loop P ?b edges [] 0 = create_pmfg_loop P ?b (drop m edges) H (int (length H))" .
  have "int (length H) = ?b \<longrightarrow> fst (create_pmfg_loop P ?b edges [] 0) = H"
    by (simp add: fin create_pmfg_loop_exit)
  with H simple show ?thesis by (simp add: Gm numberOfEdges_def)
qed

lemma extract_example:
  "extract_edges example_matrix 4 =
     [Edge 0 1 0.9, Edge 0 2 0.8, Edge 0 3 0.1, Edge 1 2 0.7, Edge 1 3 0.6, Edge 2 3 0.95]"
  by (simp add: extract_edges_def upt_rec example_matrix_def Let_def)

lemma example_sorted_ok:
  "qsort_result compare_edges_desc (extract_edges example_matrix 4) example_sorted"
  by (simp add: qsort_result_def extract_example example_sorted_def compare_edges_desc_def)

lemma create_pmfg_example:
  "create_pmfg always_planar 4 (take 6 example_sorted) = [(2, 3), (0, 1), (0, 2), (1, 2), (1, 3), (0, 3)]"
  by (simp add: create_pmfg_def example_sorted_def is_planar_with_edge_def newEdge_def delEdge_def
      always_planar_def)

text \<open>
  Claim C1. Let the node count be at least 3, let the library judge the empty graph
  planar, let \<^verbatim>\<open>supportEdge\<close> say yes only when the graph with the new edge is planar, and
  let \<open>edges\<close> be any array that \<^verbatim>\<open>qsort\<close> may produce from the extracted candidates. Then
  the working graph of \<^verbatim>\<open>create_pmfg\<close> (teste.c) and of \<^verbatim>\<open>create_pmfg_spqr_only\<close> (part_000)
  after any number \<open>m\<close> of loop iterations (the run on the first \<open>m\<close> candidates; by
  \<open>create_pmfg_loop_append\<close> the full run passes through exactly this state) is planar,
  has no duplicate edge, no self-loop and at most \<open>3n - 6\<close> edges; and once it has
  \<open>3n - 6\<close> edges the loop stops: the final graph is this graph.
\<close>

theorem working_graph_invariant:
  assumes "3 \<le> n" and "isPlanar []"
    and "\<And>G u v. supportEdge G u v = Some True \<Longrightarrow> isPlanar (G @ [(u, v)])"
    and "qsort_result compare_edges_desc (extract_edges proximity_matrix n) edges"
  shows "(let Gm = create_pmfg isPlanar n (take m edges) in
            isPlanar Gm \<and> no_duplicate_edges Gm \<and> no_self_loops Gm \<and>
            numberOfEdges Gm \<le> 3 * int n - 6 \<and>
            (numberOfEdges Gm = 3 * int n - 6 \<longrightarrow> create_pmfg isPlanar n edges = Gm)) \<and>
         (let Gm = create_pmfg_spqr_only supportEdge n (take m edges) in
            isPlanar Gm \<and> no_duplicate_edges Gm \<and> no_self_loops Gm \<and>
            numberOfEdges Gm \<le> 3 * int n - 6 \<and>
            (numberOfEdges Gm = 3 * int n - 6 \<longrightarrow> create_pmfg_spqr_only supportEdge n edges = Gm))"
proof -
  have b: "3 * (int n - 2) = 3 * int n - 6" by simp
  let ?S = "\<lambda>H. supportEdge (butlast H) (fst (last H)) (snd (last H)) = Some True"
  have s1: "isPlanar G \<Longrightarrow> isPlanar (G @ [(u, v)]) \<Longrightarrow> isPlanar (G @ [(u, v)])" for G u v .
  have s2: "isPlanar G \<Longrightarrow> ?S (G @ [(u, v)]) \<Longrightarrow> isPlanar (G @ [(u, v)])" for G u v
    using assms(3) by simp
  note r1 = query_loop_run[where Q=isPlanar and P=isPlanar and n=n and W=proximity_matrix
      and edges=edges and m=m, OF assms(1,2) s1 assms(4) refl]
  note r2 = query_loop_run[where Q=isPlanar and P="?S" and n=n and W=proximity_matrix
      and edges=edges and m=m, OF assms(1,2) s2 assms(4) refl]
  show ?thesis
    using r1 r2
    by (simp add: Let_def create_pmfg_def create_pmfg_spqr_only_def spqr_loop_as_query_loop b)
qed


theorem working_graph_invariant_witness:
  "(3::nat) \<le> 4 \<and> always_planar [] \<and>
   qsort_result compare_edges_desc (extract_edges example_matrix 4) example_sorted \<and>
   always_planar (create_pmfg always_planar 4 (take 6 example_sorted)) \<and>
   no_duplicate_edges (create_pmfg always_planar 4 (take 6 example_sorted)) \<and>
   no_self_loops (create_pmfg always_planar 4 (take 6 example_sorted)) \<and>
   numberOfEdges (create_pmfg always_planar 4 (take 6 example_sorted)) = 3 * int 4 - 6 \<and>
   create_pmfg always_planar 4 example_sorted = create_pmfg always_planar 4 (take 6 example_sorted) \<and>
   no_duplicate_edges (create_pmfg_spqr_only always_supported 4 (take 6 example_sorted)) \<and>
   numberOfEdges (create_pmfg_spqr_only always_supported 4 (take 6 example_sorted)) \<le> 3 * int 4 - 6"
proof -
  have n: "(3::nat) \<le> 4" by simp
  have e: "always_planar []" by (simp add: always_planar_def)
  have s: "\<And>G u v. always_supported G u v = Some True \<Longrightarrow> always_planar (G @ [(u, v)])"
    by (simp add: always_planar_def)
  have six: "numberOfEdges (create_pmfg always_planar 4 (take 6 example_sorted)) = 3 * int 4 - 6"
    by (simp add: create_pmfg_example numberOfEdges_def)
  show ?thesis
    using working_graph_invariant[of 4 always_planar always_supported example_matrix example_sorted 6,
        OF n e s example_sorted_ok] six example_sorted_ok e
    by (simp add: Let_def)
qed

section \<open>Two runs on the same input\<close>






lemma tied_extract:
  "extract_edges tied_matrix 5 =
     [Edge 0 1 1, Edge 0 2 1, Edge 0 3 1, Edge 0 4 1, Edge 1 2 1, Edge 1 3 1, Edge 1 4 1,
      Edge 2 3 1, Edge 2 4 1, Edge 3 4 1]"
  by (simp add: extract_edges_def upt_rec tied_matrix_def)




subsection \<open>What the comparators fix\<close>

text \<open>
  \<^verbatim>\<open>compare_edges_desc\<close> and \<^verbatim>\<open>Edge::operator<\<close> compare the weights only. When the weights
  are pairwise distinct the library contract leaves one sorted sequence.
\<close>

lemma descending_unique:
  assumes "mset ys1 = mset xs" "mset ys2 = mset xs" "distinct (map f xs)"
    and "sorted_wrt (\<lambda>a b. f a \<ge> f b) ys1" "sorted_wrt (\<lambda>a b. f a \<ge> (f b :: 'k::linorder)) ys2"
  shows "ys1 = ys2"
proof -
  have m1: "mset (map f ys1) = mset (map f xs)" and m2: "mset (map f ys2) = mset (map f xs)"
    using assms(1,2) by simp_all
  have d1: "distinct (map f ys1)" and d2: "distinct (map f ys2)"
    using m1 m2 assms(3) mset_eq_imp_distinct_iff by blast+
  have s1: "sorted (rev (map f ys1))" and s2: "sorted (rev (map f ys2))"
    using assms(4,5) by (simp_all add: sorted_wrt_rev sorted_wrt_map)
  have "set (rev (map f ys1)) = set (rev (map f ys2))"
    using m1 m2 by (metis mset_eq_setD set_rev)
  with s1 s2 d1 d2 have "rev (map f ys1) = rev (map f ys2)"
    by (intro sorted_distinct_set_unique) simp_all
  then have eq: "map f ys1 = map f ys2" by simp
  have "inj_on f (set ys1 \<union> set ys2)"
    using assms(1,2,3) by (metis distinct_map mset_eq_setD sup.idem)
  with eq show ?thesis by (rule map_inj_on)
qed

lemma distinct_weights_unique_order:
  assumes "distinct (map weight (extract_edges proximity_matrix n))"
    and "qsort_result compare_edges_desc (extract_edges proximity_matrix n) edges1"
    and "qsort_result compare_edges_desc (extract_edges proximity_matrix n) edges2"
    and "distinct (map list_weight listed)"
    and "std_sort_result edge_less listed sorted1"
    and "std_sort_result edge_less listed sorted2"
  shows "edges1 = edges2 \<and> create_pmfg isPlanar n edges1 = create_pmfg isPlanar n edges2 \<and>
         create_pmfg_spqr_only supportEdge n edges1 = create_pmfg_spqr_only supportEdge n edges2 \<and>
         sorted1 = sorted2 \<and>
         generator_createPMFG supportEdge g sorted1 = generator_createPMFG supportEdge g sorted2"
proof -
  have c: "(compare_edges_desc a b \<le> 0) = (weight a \<ge> weight b)" for a b :: "'a Edge"
    by (auto simp: compare_edges_desc_def)
  have "edges1 = edges2"
    using assms(1-3) by (intro descending_unique[where f=weight]) (simp_all add: qsort_result_def c)
  moreover have "sorted1 = sorted2"
    using assms(4-6)
    by (intro descending_unique[where f=list_weight])
       (simp_all add: std_sort_result_def edge_less_def not_less)
  ultimately show ?thesis by simp
qed

text \<open>
  When weights are equal the contract permits several sequences, and the loop commits
  different edges from them; which sequence a run gets is the library's choice.
\<close>

lemma tied_sorted: "sorted_wrt (\<lambda>a b. compare_edges_desc a b \<le> 0) (extract_edges tied_matrix 5)"
  by (simp add: tied_extract compare_edges_desc_def)

lemma contract_leaves_ties_open:
  "qsort_result compare_edges_desc (extract_edges tied_matrix 5) (extract_edges tied_matrix 5) \<and>
   qsort_result compare_edges_desc (extract_edges tied_matrix 5) (rev (extract_edges tied_matrix 5)) \<and>
   create_pmfg always_planar 5 (extract_edges tied_matrix 5) =
     [(0, 1), (0, 2), (0, 3), (0, 4), (1, 2), (1, 3), (1, 4), (2, 3), (2, 4)] \<and>
   create_pmfg always_planar 5 (rev (extract_edges tied_matrix 5)) =
     [(3, 4), (2, 4), (2, 3), (1, 4), (1, 3), (1, 2), (0, 4), (0, 3), (0, 2)] \<and>
   set (create_pmfg always_planar 5 (extract_edges tied_matrix 5)) \<noteq>
   set (create_pmfg always_planar 5 (rev (extract_edges tied_matrix 5)))"
proof -
  have a: "qsort_result compare_edges_desc (extract_edges tied_matrix 5) (extract_edges tied_matrix 5)"
    by (simp add: qsort_result_def tied_sorted)
  have b: "qsort_result compare_edges_desc (extract_edges tied_matrix 5) (rev (extract_edges tied_matrix 5))"
    by (simp add: qsort_result_def tied_extract compare_edges_desc_def)
  have c: "create_pmfg always_planar 5 (extract_edges tied_matrix 5) =
     [(0, 1), (0, 2), (0, 3), (0, 4), (1, 2), (1, 3), (1, 4), (2, 3), (2, 4)]"
    by (simp add: create_pmfg_def tied_extract is_planar_with_edge_def newEdge_def delEdge_def
      always_planar_def)
  have d: "create_pmfg always_planar 5 (rev (extract_edges tied_matrix 5)) =
     [(3, 4), (2, 4), (2, 3), (1, 4), (1, 3), (1, 2), (0, 4), (0, 3), (0, 2)]"
    by (simp add: create_pmfg_def tied_extract is_planar_with_edge_def newEdge_def delEdge_def
      always_planar_def)
  have e: "(0, 1) \<in> set (create_pmfg always_planar 5 (extract_edges tied_matrix 5))"
    by (simp add: c)
  have f: "(0, 1) \<notin> set (create_pmfg always_planar 5 (rev (extract_edges tied_matrix 5)))"
    by (simp add: d)
  from e f have "set (create_pmfg always_planar 5 (extract_edges tied_matrix 5)) \<noteq>
   set (create_pmfg always_planar 5 (rev (extract_edges tied_matrix 5)))" by metis
  with a b c d show ?thesis by simp
qed

section \<open>Candidates that are already committed\<close>

text \<open>
  Claim C5, as the code has it. A candidate with valid node indices whose normalised
  pair is in \<^verbatim>\<open>addedEdges\<close> takes the \<^verbatim>\<open>continue\<close> branch of \<^verbatim>\<open>PMFGGenerator::createPMFG\<close>:
  no error is raised, the planarity test is not consulted, the generator and the counter
  are unchanged and the loop goes on with the next candidate. Phase 2 of
  \<^verbatim>\<open>create_pmfg_incremental\<close> does the same for a pair that its scan of the graph finds in
  either direction.
\<close>

theorem duplicate_skipped:
  assumes "0 \<le> source edge" "source edge < numNodes g" "0 \<le> target edge" "target edge < numNodes g"
    and "normalizeEdge (source edge) (target edge) \<in> addedEdges g"
    and "edge_exists pmfg (edge_i e) (edge_j e)" "added_edges < max_edges"
  shows "createPMFG_body supportEdge edge (g, addedEdgeCount) = (Duplicate, g, addedEdgeCount) \<and>
         createPMFG_edges supportEdge maxEdges (edge # sortedEdges) (g, addedEdgeCount) =
           createPMFG_edges supportEdge maxEdges sortedEdges (g, addedEdgeCount) \<and>
         phase2_loop supportEdge max_edges (e # edges) pmfg added_edges =
           phase2_loop supportEdge max_edges edges pmfg added_edges"
proof -
  have b: "createPMFG_body supportEdge edge (g, addedEdgeCount) = (Duplicate, g, addedEdgeCount)"
    using assms(1-5) by (simp add: createPMFG_body_def)
  have "createPMFG_edges supportEdge maxEdges (edge # sortedEdges) (g, addedEdgeCount) =
           createPMFG_edges supportEdge maxEdges sortedEdges (g, addedEdgeCount)"
    by (cases sortedEdges) (simp_all add: b)
  moreover have "phase2_loop supportEdge max_edges (e # edges) pmfg added_edges =
           phase2_loop supportEdge max_edges edges pmfg added_edges"
    using assms(6,7) by simp
  ultimately show ?thesis using b by simp
qed

theorem duplicate_skipped_witness:
  "createPMFG_body always_supported (ListEdge 1 0 (0.9::real))
      (\<lparr>graph = [(0, 1)], addedEdges = {(0, 1)}, numNodes = 3\<rparr>, 1) =
     (Duplicate, \<lparr>graph = [(0, 1)], addedEdges = {(0, 1)}, numNodes = 3\<rparr>, 1) \<and>
   phase2_loop always_supported 3 [Edge 0 1 (0.9::real)] [(1, 0)] 1 = Some ([(1, 0)], 1)"
  using duplicate_skipped[of "ListEdge 1 0 (0.9::real)" "\<lparr>graph = [(0, 1)], addedEdges = {(0, 1)}, numNodes = 3\<rparr>"
      "[(1, 0)]" "Edge 0 1 (0.9::real)" 1 3 always_supported 1 3 "[]" "[]"]
  by (simp add: normalizeEdge_def edge_exists_def)

text \<open>
  The pair (0, 1) offered a second time, as (1, 0): the body takes the duplicate branch,
  and the run on the list that names the pair twice returns the graph with the one edge.
\<close>

theorem duplicate_counterexample:
  "fst (createPMFG_body always_supported (ListEdge 1 0 (0.9::real))
      (\<lparr>graph = [(0, 1)], addedEdges = {(0, 1)}, numNodes = 3\<rparr>, 1)) = Duplicate \<and>
   generator_createPMFG always_supported (initializeGraph 3) duplicate_input = [(0, 1)]"
  by (simp add: createPMFG_body_def normalizeEdge_def generator_createPMFG_def initializeGraph_def
      duplicate_input_def always_supported_def newEdge_def)

section \<open>Fewer than three nodes\<close>

text \<open>
  Claim C8, as the code has it. For one or two nodes the budget \<open>3n - 6\<close> is not
  positive, so the loops of \<^verbatim>\<open>create_pmfg\<close>, \<^verbatim>\<open>create_pmfg_spqr_only\<close> and
  \<^verbatim>\<open>PMFGGenerator::createPMFG\<close> never run their body: the functions return the graph
  without edges, which has at most \<open>n - 1\<close> edges.
\<close>

theorem degenerate_no_edges:
  assumes "1 \<le> n" and "n < 3"
  shows "create_pmfg isPlanar n edges = [] \<and>
         create_pmfg_spqr_only supportEdge n edges = [] \<and>
         generator_createPMFG supportEdge (initializeGraph (int n)) sortedEdges = [] \<and>
         numberOfEdges (create_pmfg isPlanar n edges) \<le> int n - 1 \<and>
         numberOfEdges (generator_createPMFG supportEdge (initializeGraph (int n)) sortedEdges)
           \<le> int n - 1"
proof -
  have a: "create_pmfg isPlanar n edges = []"
    using assms(2) by (cases edges) (simp_all add: create_pmfg_def)
  have b: "create_pmfg_spqr_only supportEdge n edges = []"
    using assms(2) by (cases edges) (simp_all add: create_pmfg_spqr_only_def)
  have c: "generator_createPMFG supportEdge (initializeGraph (int n)) sortedEdges = []"
    using assms(2) by (cases sortedEdges) (simp_all add: generator_createPMFG_def initializeGraph_def)
  show ?thesis using a b c assms(1) by (simp add: numberOfEdges_def)
qed

theorem degenerate_no_edges_witness:
  "(1::nat) \<le> 1 \<and> (1::nat) < 3 \<and>
   create_pmfg always_planar 1 ([] :: real Edge list) = [] \<and>
   generator_createPMFG always_supported (initializeGraph (int 1)) duplicate_input = [] \<and>
   numberOfEdges (create_pmfg always_planar 1 ([] :: real Edge list)) \<le> int 1 - 1"
  using degenerate_no_edges[of 1 always_planar "[] :: real Edge list" always_supported duplicate_input]
  by (simp add: numberOfEdges_def)

text \<open>
  Two nodes with the finite weight 0.9: the single candidate (0, 1) is not committed by
  the three functions above. \<^verbatim>\<open>createPMFG\<close> of teste.cpp, which tests the budget after
  the insertion, and phase 1 of \<^verbatim>\<open>create_pmfg_incremental\<close> do commit it.
\<close>

theorem two_nodes_no_edge:
  "qsort_result compare_edges_desc (extract_edges example_matrix 2) [Edge 0 1 0.9] \<and>
   create_pmfg always_planar 2 [Edge 0 1 (0.9::real)] = [] \<and>
   create_pmfg_spqr_only always_supported 2 [Edge 0 1 (0.9::real)] = [] \<and>
   generator_createPMFG always_supported (initializeGraph 2) [ListEdge 0 1 (0.9::real)] = [] \<and>
   createPMFG always_planar example_weights 2 = [(0, 1)] \<and>
   create_pmfg_incremental always_supported 2 [Edge 0 1 (0.9::real)] = Some [(0, 1)]"
  by (simp add: qsort_result_def extract_edges_def upt_rec example_matrix_def
      create_pmfg_def create_pmfg_spqr_only_def generator_createPMFG_def initializeGraph_def
      createPMFG_def sort_rbegin_rend_def complete_edges_def weights_at_def example_weights_def
      newEdge_def delEdge_def always_planar_def always_supported_def numberOfEdges_def
      create_pmfg_incremental_def phase1_def edge_exists_def)

section \<open>The tree phase\<close>

text \<open>\<^verbatim>\<open>components\<close> keeps its initial value through phase 1, whatever the candidates are.\<close>

lemma phase1_components_constant:
  assumes "\<forall>e \<in> set edges. edge_i e < length node_connected \<and> edge_j e < length node_connected"
  shows "fst (snd (snd (phase1_loop edges pmfg node_connected components added_edges))) = components"
  using assms
proof (induction edges arbitrary: pmfg node_connected added_edges)
  case Nil
  show ?case by simp
next
  case (Cons e edges)
  have i: "edge_i e < length node_connected" and j: "edge_j e < length node_connected"
    using Cons.prems by simp_all
  have flags: "node_connected[edge_i e := True, edge_j e := True] ! edge_i e"
    "node_connected[edge_i e := True, edge_j e := True] ! edge_j e"
    using i j by (simp_all add: nth_list_update)
  have rest: "\<forall>x \<in> set edges. edge_i x < length (node_connected[edge_i e := True, edge_j e := True]) \<and>
      edge_j x < length (node_connected[edge_i e := True, edge_j e := True])"
    using Cons.prems by simp
  show ?case
    using Cons.IH[OF rest] Cons.IH[of node_connected] Cons.prems flags
    by (simp add: Let_def)
qed

text \<open>
  Claim C4 on the four-node example. Phase 1 of \<^verbatim>\<open>create_pmfg_incremental\<close> commits
  (2, 3) and (0, 1) only: (0, 2) joins the components {0, 1} and {2, 3} but both its
  endpoints are flagged, and \<^verbatim>\<open>components\<close> is still 4 after the scan of all six
  candidates. The loop of part_001 with a union-find structure commits (0, 2) as well.
\<close>

theorem phase1_misses_joining_edge:
  "phase1 4 example_sorted = ([(2, 3), (0, 1)], [True, True, True, True], 4, 2) \<and>
   tree_loop 4 example_sorted [] (uf_init 4) 0 = ([(2, 3), (0, 1), (0, 2)], [0, 0, 0, 0], 3)"
proof -
  have r: "replicate 4 False = [False, False, False, False]"
    by (simp add: eval_nat_numeral)
  have "phase1 4 example_sorted = ([(2, 3), (0, 1)], [True, True, True, True], 4, 2)"
    by (simp add: phase1_def example_sorted_def newEdge_def r)
  moreover have "tree_loop 4 example_sorted [] (uf_init 4) 0 = ([(2, 3), (0, 1), (0, 2)], [0, 0, 0, 0], 3)"
    by (simp add: example_sorted_def newEdge_def uf_init_def uf_find_def unionBlocks_def upt_rec)
  ultimately show ?thesis by simp
qed

section \<open>The end-to-end example\<close>

text \<open>
  Claim C2 on the code. \<^verbatim>\<open>create_pmfg_incremental\<close> commits (2, 3) and (0, 1) in phase 1
  and (0, 2), (1, 2), (1, 3), (0, 3) in phase 2; the final graph has the six edges of K4,
  density 1. \<^verbatim>\<open>createPMFG\<close> of teste.cpp sorts the candidates in the order of the example
  and stops after the three edges (2, 3), (0, 1), (0, 2), density 0.5.
\<close>

theorem example_run:
  "fst (phase1 4 example_sorted) = [(2, 3), (0, 1)] \<and>
   create_pmfg_incremental always_supported 4 example_sorted =
     Some [(2, 3), (0, 1), (0, 2), (1, 2), (1, 3), (0, 3)] \<and>
   snd (print_pmfg_stats 6 4) = Some 1 \<and>
   sort_rbegin_rend (complete_edges example_weights 4) =
     [(0.95, 2, 3), (0.9, 0, 1), (0.8, 0, 2), (0.7, 1, 2), (0.6, 1, 3), (0.1, 0, 3)] \<and>
   createPMFG always_planar example_weights 4 = [(2, 3), (0, 1), (0, 2)] \<and>
   snd (print_pmfg_stats 3 4) = Some 0.5"
  by (simp add: phase1_def example_sorted_def newEdge_def delEdge_def create_pmfg_incremental_def
      edge_exists_def always_supported_def always_planar_def print_pmfg_stats_def
      createPMFG_def sort_rbegin_rend_def complete_edges_def weights_at_def example_weights_def
      upt_rec numberOfEdges_def less_eq_prod_def less_prod_def density_divisor_def int32_def)

section \<open>The bounded candidate buffer\<close>

lemma pq_push_greatest: "\<forall>x \<in> set q. weight x < weight e \<Longrightarrow> pq_push e q = e # q"
  by (cases q) auto

lemma offer_below: "int (length q) < B \<Longrightarrow> offer B e (Some q) = Some (pq_push e q)"
  by (simp add: offer_def)

lemma offer_full:
  "\<not> int (length (t # rest)) < B \<Longrightarrow> weight t < weight e \<Longrightarrow>
   offer B e (Some (t # rest)) = Some (pq_push e rest)"
  by (simp add: offer_def)

text \<open>
  Candidates that arrive in ascending order of weight: once the buffer holds \<open>K\<close> of
  them, every newcomer replaces the greatest one. The buffer ends with the last
  candidate and the \<open>K - 1\<close> first, that is, smallest ones.
\<close>

lemma ascending_stream:
  assumes "sorted_wrt (\<lambda>a b. weight a < weight b) cs" "1 \<le> K"
  shows "fold (offer (int K)) cs (Some []) =
           Some (if length cs \<le> K then rev cs else last cs # rev (take (K - 1) cs))"
  using assms(1)
proof (induction cs rule: rev_induct)
  case Nil
  show ?case by simp
next
  case (snoc e cs)
  have asc: "sorted_wrt (\<lambda>a b. weight a < weight b) cs" and gt: "\<forall>x \<in> set cs. weight x < weight e"
    using snoc.prems by (auto simp: sorted_wrt_append)
  note IH = snoc.IH[OF asc]
  show ?case
  proof (cases "length cs < K")
    case True
    then show ?thesis using IH gt by (simp add: offer_below pq_push_greatest)
  next
    case False
    then have ne: "cs \<noteq> []" using assms(2) by auto
    show ?thesis
    proof (cases "length cs = K")
      case True
      have full: "rev cs = last cs # rev (butlast cs)"
        using ne by (metis append_butlast_last_id rev.simps(2) rev_swap)
      have bl: "butlast cs = take (K - 1) cs"
        using True by (simp add: butlast_conv_take)
      have lt: "weight (last cs) < weight e" using gt ne by simp
      have g2: "\<forall>x \<in> set (rev (butlast cs)). weight x < weight e"
        using gt by (auto dest: in_set_butlastD)
      have "fold (offer (int K)) cs (Some []) = Some (last cs # rev (butlast cs))"
        using IH True full by simp
      then have "fold (offer (int K)) (cs @ [e]) (Some []) = Some (pq_push e (rev (butlast cs)))"
        using True lt by (simp add: offer_full)
      then show ?thesis using True g2 bl by (simp add: pq_push_greatest)
    next
      case False
      with \<open>\<not> length cs < K\<close> have big: "K < length cs" by simp
      have lt: "weight (last cs) < weight e" using gt ne by simp
      have g2: "\<forall>x \<in> set (rev (take (K - 1) cs)). weight x < weight e"
        using gt by (auto dest: in_set_takeD)
      have "fold (offer (int K)) cs (Some []) = Some (last cs # rev (take (K - 1) cs))"
        using IH big by simp
      then have "fold (offer (int K)) (cs @ [e]) (Some []) = Some (pq_push e (rev (take (K - 1) cs)))"
        using big lt assms(2) by (simp add: offer_full)
      then show ?thesis using big g2 by (simp add: pq_push_greatest)
    qed
  qed
qed

text \<open>The scan of a full matrix file offers the extracted candidates, row by row.\<close>

lemma scan_row_full:
  assumes "row < n"
  shows "scan_row B n row (map (\<lambda>col. Some (W row col)) [0..<n]) q =
         fold (offer B) (map (\<lambda>col. Edge row col (W row col)) [Suc row..<n]) q"
proof -
  let ?f = "\<lambda>(col, cell) q. if col > row
             then (case cell of Some w \<Rightarrow> offer B (Edge row col w) q | None \<Rightarrow> q) else q"
  let ?g = "\<lambda>col. ?f (col, Some (W row col))"
  have split: "[0..<n] = [0..<Suc row] @ [Suc row..<n]"
    using assms upt_add_eq_append[of 0 "Suc row" "n - Suc row"] by simp
  have "scan_row B n row (map (\<lambda>col. Some (W row col)) [0..<n]) q =
          fold ?f (map (\<lambda>col. (col, Some (W row col))) [0..<n]) q"
    by (simp add: scan_row_def enumerate_map_upt)
  also have "\<dots> = fold ?g [0..<n] q"
    by (simp add: fold_map comp_def)
  also have "\<dots> = fold ?g [Suc row..<n] (fold ?g [0..<Suc row] q)"
    by (subst split) simp
  also have "fold ?g [0..<Suc row] = id"
    by (rule fold_id) auto
  also have "fold ?g [Suc row..<n] = fold (\<lambda>col. offer B (Edge row col (W row col))) [Suc row..<n]"
    by (rule ext, rule fold_cong) auto
  finally show ?thesis by (simp add: fold_map comp_def)
qed

lemma fold_fold_concat: "fold (\<lambda>xs. fold f xs) xss q = fold f (concat xss) q"
  by (induction xss arbitrary: q) auto

lemma scan_matrix_full:
  "scan_matrix B n (candidates_of W n) = fold (offer B) (extract_edges W n) (Some [])"
proof -
  have "scan_matrix B n (candidates_of W n) =
          fold (\<lambda>(row, cells) q. scan_row B n row cells q)
            (map (\<lambda>row. (row, map (\<lambda>col. Some (W row col)) [0..<n])) [0..<n]) (Some [])"
    by (simp add: scan_matrix_def candidates_of_def enumerate_map_upt)
  also have "\<dots> = fold (\<lambda>row q. scan_row B n row (map (\<lambda>col. Some (W row col)) [0..<n]) q) [0..<n] (Some [])"
    by (simp add: fold_map comp_def)
  also have "\<dots> = fold (\<lambda>row. fold (offer B) (map (\<lambda>col. Edge row col (W row col)) [Suc row..<n])) [0..<n] (Some [])"
    by (rule fold_cong) (auto simp: scan_row_full)
  also have "\<dots> = fold (\<lambda>xs. fold (offer B) xs) (map (\<lambda>row. map (\<lambda>col. Edge row col (W row col)) [Suc row..<n]) [0..<n]) (Some [])"
    by (simp add: fold_map comp_def)
  also have "\<dots> = fold (offer B) (extract_edges W n) (Some [])"
    by (simp add: fold_fold_concat extract_edges_def)
  finally show ?thesis .
qed

lemma sorted_wrt_concat_rows:
  assumes "\<And>xs. xs \<in> set xss \<Longrightarrow> sorted_wrt P xs"
    and "sorted_wrt (\<lambda>xs ys. \<forall>x \<in> set xs. \<forall>y \<in> set ys. P x y) xss"
  shows "sorted_wrt P (concat xss)"
  using assms by (induction xss) (auto simp: sorted_wrt_append)

lemma ascending_candidates:
  "sorted_wrt (\<lambda>a b. weight a < weight b) (extract_edges ascending_matrix 59)"
  unfolding extract_edges_def
proof (rule sorted_wrt_concat_rows)
  fix xs assume "xs \<in> set (map (\<lambda>i. map (\<lambda>j. Edge i j (ascending_matrix i j)) [Suc i..<59]) [0..<59])"
  then obtain i where xs: "xs = map (\<lambda>j. Edge i j (ascending_matrix i j)) [Suc i..<59]" by auto
  have "sorted_wrt (\<lambda>j k. ascending_matrix i j < ascending_matrix i k) [Suc i..<59]"
    by (rule sorted_wrt_mono_rel[OF _ sorted_wrt_upt]) (auto simp: ascending_matrix_def)
  then show "sorted_wrt (\<lambda>a b. weight a < weight b) xs"
    by (simp add: xs sorted_wrt_map)
next
  have "sorted_wrt (\<lambda>i k. \<forall>x \<in> set (map (\<lambda>j. Edge i j (ascending_matrix i j)) [Suc i..<59]).
                          \<forall>y \<in> set (map (\<lambda>j. Edge k j (ascending_matrix k j)) [Suc k..<59]).
                            weight x < weight y) [0..<59]"
    by (rule sorted_wrt_mono_rel[OF _ sorted_wrt_upt]) (auto simp: ascending_matrix_def)
  then show "sorted_wrt (\<lambda>xs ys. \<forall>x\<in>set xs. \<forall>y\<in>set ys. weight x < weight y)
     (map (\<lambda>i. map (\<lambda>j. Edge i j (ascending_matrix i j)) [Suc i..<59]) [0..<59])"
    by (simp add: sorted_wrt_map)
qed

lemma top_edges_keeps_weakest:
  "top_edges 59 (candidates_of ascending_matrix 59) =
     Some (take 1709 (extract_edges ascending_matrix 59) @ [last (extract_edges ascending_matrix 59)])"
proof -
  have len: "length (extract_edges ascending_matrix 59) = 1711"
    by (simp add: length_extract_edges)
  have "fold (offer (int 1710)) (extract_edges ascending_matrix 59) (Some []) =
          Some (if length (extract_edges ascending_matrix 59) \<le> 1710
                then rev (extract_edges ascending_matrix 59)
                else last (extract_edges ascending_matrix 59) #
                     rev (take (1710 - 1) (extract_edges ascending_matrix 59)))"
    by (rule ascending_stream[OF ascending_candidates]) simp
  then show ?thesis
    by (simp add: top_edges_def scan_matrix_full len)
qed

lemma weakest_kept_stronger_dropped:
  assumes "sorted_wrt (\<lambda>a b. weight a < weight b) (cs :: 'w::linorder Edge list)"
    and "length cs = Suc K" "2 \<le> K"
  shows "cs ! 0 \<in> set (take (K - 1) cs @ [last cs]) \<and>
         cs ! (K - 1) \<notin> set (take (K - 1) cs @ [last cs]) \<and>
         weight (cs ! 0) < weight (cs ! (K - 1))"
proof -
  have lt: "weight (cs ! a) < weight (cs ! b)" if "a < b" "b < length cs" for a b
    using assms(1) that by (rule sorted_wrt_nth_less)
  have ne: "cs \<noteq> []" using assms(2) by auto
  have "cs ! 0 = take (K - 1) cs ! 0" using assms(3) by simp
  moreover have "take (K - 1) cs ! 0 \<in> set (take (K - 1) cs)"
    using assms(2,3) by (intro nth_mem) simp
  ultimately have a: "cs ! 0 \<in> set (take (K - 1) cs)" by simp
  have b: "cs ! (K - 1) \<noteq> last cs"
  proof -
    have "weight (cs ! (K - 1)) < weight (cs ! K)"
      using assms(2,3) by (intro lt) auto
    moreover have "last cs = cs ! K"
      using ne assms(2) by (simp add: last_conv_nth)
    ultimately show ?thesis by auto
  qed
  have c: "cs ! (K - 1) \<notin> set (take (K - 1) cs)"
  proof
    assume "cs ! (K - 1) \<in> set (take (K - 1) cs)"
    then obtain m where m: "m < K - 1" "take (K - 1) cs ! m = cs ! (K - 1)"
      using assms(2) by (auto simp: in_set_conv_nth)
    then have "weight (cs ! m) < weight (cs ! (K - 1))"
      using assms(2) by (intro lt) auto
    with m show False by simp
  qed
  have d: "weight (cs ! 0) < weight (cs ! (K - 1))"
    using assms(2,3) by (intro lt) auto
  show ?thesis using a b c d by simp
qed

text \<open>
  Claim C9 on the code. On a three-node file all three candidates are retained (the
  buffer size is 30) and they are handed on in ascending order of weight, the weakest
  edge first. On the 59-node file of \<open>ascending_matrix\<close> there are 1711 candidates for a
  buffer of 1710: the buffer ends with the 1709 weakest candidates and the strongest
  one; the weakest candidate of all is retained and the second strongest is not.
\<close>

theorem bounded_buffer_defects:
  "top_edges 3 three_node_file = Some [Edge 1 2 0.7, Edge 0 2 0.8, Edge 0 1 0.9] \<and>
   length (extract_edges ascending_matrix 59) = 1711 \<and>
   top_edges 59 (candidates_of ascending_matrix 59) =
     Some (take 1709 (extract_edges ascending_matrix 59) @ [last (extract_edges ascending_matrix 59)]) \<and>
   extract_edges ascending_matrix 59 ! 0 \<in>
     set (take 1709 (extract_edges ascending_matrix 59) @ [last (extract_edges ascending_matrix 59)]) \<and>
   extract_edges ascending_matrix 59 ! 1709 \<notin>
     set (take 1709 (extract_edges ascending_matrix 59) @ [last (extract_edges ascending_matrix 59)]) \<and>
   weight (extract_edges ascending_matrix 59 ! 0) < weight (extract_edges ascending_matrix 59 ! 1709)"
proof -
  have a: "top_edges 3 three_node_file = Some [Edge 1 2 0.7, Edge 0 2 0.8, Edge 0 1 0.9]"
    by (simp add: top_edges_def scan_matrix_def scan_row_def offer_def three_node_file_def
        enumerate_eq_zip upt_rec)
  have len: "length (extract_edges ascending_matrix 59) = Suc 1710"
    by (simp add: length_extract_edges)
  have k: "(2::nat) \<le> 1710" by simp
  show ?thesis
    using a len top_edges_keeps_weakest
      weakest_kept_stronger_dropped[OF ascending_candidates len k]
    by simp
qed

section \<open>The divisors of the statistics\<close>

lemma create_pmfg_two_nodes: "create_pmfg isPlanar 2 edges = []"
  by (cases edges) (simp_all add: create_pmfg_def)

subsection \<open>The 32-bit arithmetic\<close>

lemma int32_id: "- 2147483648 \<le> x \<Longrightarrow> x \<le> 2147483647 \<Longrightarrow> int32 x = x"
  by (simp add: int32_def)

lemma int32_range: "- 2147483648 \<le> int32 x \<and> int32 x \<le> 2147483647"
proof -
  have "0 \<le> (x + 2147483648) mod 4294967296" "(x + 2147483648) mod 4294967296 < 4294967296"
    by simp_all
  then show ?thesis by (simp add: int32_def)
qed

lemma int32_mod: "int32 x mod 4294967296 = x mod 4294967296"
proof -
  have "int32 x mod 4294967296 = ((x + 2147483648) mod 4294967296 - 2147483648) mod 4294967296"
    by (simp add: int32_def)
  also have "\<dots> = ((x + 2147483648) - 2147483648) mod 4294967296"
    by (rule mod_diff_left_eq)
  finally show ?thesis by simp
qed

lemma small_multiple: "4294967296 dvd (y::int) \<Longrightarrow> - 4294967296 < y \<Longrightarrow> y < 4294967296 \<Longrightarrow> y = 0"
  by (auto elim!: dvdE)

lemma int32_zero_iff: "int32 x = 0 \<longleftrightarrow> 4294967296 dvd x"
proof
  assume "int32 x = 0"
  then have "x mod 4294967296 = 0" using int32_mod[of x] by simp
  then show "4294967296 dvd x" by (simp add: dvd_eq_mod_eq_0)
next
  assume "4294967296 dvd x"
  then have "int32 x mod 4294967296 = 0" by (simp add: int32_mod)
  then have "4294967296 dvd int32 x" by (simp add: dvd_eq_mod_eq_0)
  then show "int32 x = 0" using int32_range[of x] by (intro small_multiple) auto
qed

lemma int32_dvd_iff: "4294967296 dvd int32 x \<longleftrightarrow> 4294967296 dvd x"
  using int32_mod[of x] by (simp add: dvd_eq_mod_eq_0)

lemma odd_coprime_pow32: "odd (m::int) \<Longrightarrow> coprime 4294967296 m"
proof -
  assume "odd m"
  then have "coprime ((2::int) ^ k) m" for k by simp
  from this[of 32] show ?thesis by simp
qed

lemma pow32_dvd_even: "4294967296 dvd (m::int) \<Longrightarrow> even m"
proof -
  assume "4294967296 dvd m"
  moreover have "(2::int) dvd 4294967296" by simp
  ultimately show "even m" by (rule dvd_trans[rotated])
qed

lemma max_planar_edges_zero_iff:
  assumes "- 2147483648 \<le> n" "n \<le> 2147483647"
  shows "max_planar_edges n = 0 \<longleftrightarrow> n = 2"
proof -
  have c: "coprime (4294967296::int) 3"
    by (rule odd_coprime_pow32) simp
  have "max_planar_edges n = 0 \<longleftrightarrow> 4294967296 dvd 3 * int32 (n - 2)"
    by (simp add: max_planar_edges_def int32_zero_iff)
  also have "\<dots> \<longleftrightarrow> 4294967296 dvd int32 (n - 2)"
    using c by (simp add: coprime_dvd_mult_right_iff)
  also have "\<dots> \<longleftrightarrow> 4294967296 dvd (n - 2)"
    by (rule int32_dvd_iff)
  also have "\<dots> \<longleftrightarrow> n = 2"
  proof
    assume "4294967296 dvd n - 2"
    then have "n - 2 = 0" using assms by (intro small_multiple) auto
    then show "n = 2" by simp
  qed simp
  finally show ?thesis .
qed

lemma density_divisor_zero_iff:
  assumes "- 2147483648 \<le> n" "n \<le> 2147483647"
  shows "density_divisor n = 0 \<longleftrightarrow> n = 0 \<or> n = 1"
proof -
  have "density_divisor n = 0 \<longleftrightarrow> 4294967296 dvd n * int32 (n - 1)"
    by (simp add: density_divisor_def int32_zero_iff)
  also have "\<dots> \<longleftrightarrow> 4294967296 dvd n * (n - 1)"
  proof -
    have "(n * int32 (n - 1)) mod 4294967296 = (n * (int32 (n - 1) mod 4294967296)) mod 4294967296"
      by (simp add: mod_mult_right_eq)
    also have "\<dots> = (n * (n - 1)) mod 4294967296"
      by (simp add: int32_mod mod_mult_right_eq)
    finally show ?thesis by (simp add: dvd_eq_mod_eq_0)
  qed
  also have "\<dots> \<longleftrightarrow> 4294967296 dvd n \<or> 4294967296 dvd (n - 1)"
  proof (cases "even n")
    case True
    then have "odd (n - 1)" by simp
    then have "coprime (4294967296::int) (n - 1)"
      by (rule odd_coprime_pow32)
    then have "4294967296 dvd n * (n - 1) \<longleftrightarrow> 4294967296 dvd n"
      by (simp add: coprime_dvd_mult_left_iff)
    moreover have "\<not> 4294967296 dvd (n - 1)"
      using \<open>odd (n - 1)\<close> pow32_dvd_even by blast
    ultimately show ?thesis by simp
  next
    case False
    then have "coprime (4294967296::int) n"
      by (rule odd_coprime_pow32)
    then have "4294967296 dvd n * (n - 1) \<longleftrightarrow> 4294967296 dvd (n - 1)"
      by (simp add: coprime_dvd_mult_right_iff)
    moreover have "\<not> 4294967296 dvd n"
      using False pow32_dvd_even by blast
    ultimately show ?thesis by simp
  qed
  also have "\<dots> \<longleftrightarrow> n = 0 \<or> n = 1"
  proof
    assume "4294967296 dvd n \<or> 4294967296 dvd n - 1"
    then show "n = 0 \<or> n = 1"
    proof
      assume "4294967296 dvd n"
      then have "n = 0" using assms by (intro small_multiple) auto
      then show ?thesis by simp
    next
      assume "4294967296 dvd n - 1"
      then have "n - 1 = 0" using assms by (intro small_multiple) auto
      then show ?thesis by simp
    qed
  qed auto
  finally show ?thesis .
qed

lemma product_bound:
  assumes "3 \<le> n" "n \<le> (46341::int)"
  shows "0 < n * (n - 1)" "n * (n - 1) \<le> 2147483647"
proof -
  show "0 < n * (n - 1)" using assms by (simp add: zero_less_mult_iff)
  have "n * (n - 1) \<le> 46341 * 46340"
    using assms by (intro mult_mono) auto
  then show "n * (n - 1) \<le> 2147483647" by simp
qed

lemma stats_exact:
  assumes "3 \<le> n" "n \<le> 46341"
  shows "max_planar_edges n = 3 * n - 6" "density_divisor n = real_of_int (n * (n - 1)) / 2"
proof -
  show "max_planar_edges n = 3 * n - 6"
    using assms by (simp add: max_planar_edges_def int32_id)
  have "int32 (n - 1) = n - 1" using assms by (simp add: int32_id)
  moreover have "int32 (n * (n - 1)) = n * (n - 1)"
    using product_bound[OF assms] by (intro int32_id) auto
  ultimately show "density_divisor n = real_of_int (n * (n - 1)) / 2"
    by (simp add: density_divisor_def)
qed

text \<open>
  Claim C10. For every \<^verbatim>\<open>int\<close> \<open>n\<close>, the utilisation quotient of \<^verbatim>\<open>print_pmfg_stats\<close> has
  a zero divisor exactly for \<open>n = 2\<close> and the density quotient exactly for \<open>n = 0\<close> and
  \<open>n = 1\<close>: no guard precedes the divisions, and for a node count \<open>n \<ge> 0\<close> both
  quotients are numbers exactly when \<open>n \<ge> 3\<close>. For \<open>3 \<le> n \<le> 46341\<close>, where the
  products fit the \<^verbatim>\<open>int\<close>, the routine computes \<open>edges / (3n - 6)\<close> (as a percentage)
  and \<open>edges / (n (n - 1) / 2)\<close>. The utilisation divisor is 0 for two nodes and -3 for
  one node. \<^verbatim>\<open>main\<close> passes the graph of \<^verbatim>\<open>create_pmfg\<close> to \<^verbatim>\<open>print_pmfg_stats\<close>: for two
  nodes that graph is empty and the utilisation is 0 / 0.
\<close>

theorem stats_divisors:
  assumes "- 2147483648 \<le> n" and "n \<le> 2147483647"
  shows "(fst (print_pmfg_stats num_edges n) = None \<longleftrightarrow> n = 2) \<and>
         (snd (print_pmfg_stats num_edges n) = None \<longleftrightarrow> n = 0 \<or> n = 1) \<and>
         (0 \<le> n \<longrightarrow>
            (fst (print_pmfg_stats num_edges n) \<noteq> None \<and>
             snd (print_pmfg_stats num_edges n) \<noteq> None \<longleftrightarrow> 3 \<le> n)) \<and>
         (3 \<le> n \<and> n \<le> 46341 \<longrightarrow>
            print_pmfg_stats num_edges n =
              (Some (real_of_int num_edges / real_of_int (3 * n - 6) * 100),
               Some (real_of_int num_edges / (real_of_int (n * (n - 1)) / 2)))) \<and>
         print_pmfg_stats num_edges 2 = (None, Some (real_of_int num_edges)) \<and>
         print_pmfg_stats num_edges 1 = (Some (real_of_int num_edges / (- 3) * 100), None) \<and>
         max_planar_edges 2 = 0 \<and> max_planar_edges 1 = - 3 \<and>
         print_pmfg_stats (numberOfEdges (create_pmfg isPlanar 2 edges)) 2 = (None, Some 0)"
proof -
  have a: "fst (print_pmfg_stats num_edges n) = None \<longleftrightarrow> n = 2"
    using max_planar_edges_zero_iff[OF assms] by (simp add: print_pmfg_stats_def)
  have b: "snd (print_pmfg_stats num_edges n) = None \<longleftrightarrow> n = 0 \<or> n = 1"
    using density_divisor_zero_iff[OF assms] by (simp add: print_pmfg_stats_def)
  have c: "0 \<le> n \<longrightarrow>
            (fst (print_pmfg_stats num_edges n) \<noteq> None \<and>
             snd (print_pmfg_stats num_edges n) \<noteq> None \<longleftrightarrow> 3 \<le> n)"
    unfolding a b by auto
  have d: "3 \<le> n \<and> n \<le> 46341 \<longrightarrow>
            print_pmfg_stats num_edges n =
              (Some (real_of_int num_edges / real_of_int (3 * n - 6) * 100),
               Some (real_of_int num_edges / (real_of_int (n * (n - 1)) / 2)))"
  proof
    assume r: "3 \<le> n \<and> n \<le> 46341"
    then have mp: "max_planar_edges n = 3 * n - 6"
      and dv: "density_divisor n = real_of_int (n * (n - 1)) / 2"
      by (simp_all add: stats_exact)
    have mp0: "3 * n - 6 \<noteq> 0" using r by simp
    have "0 < n * (n - 1)" using r by (simp add: product_bound)
    then have "real_of_int (n * (n - 1)) \<noteq> 0" by (simp only: of_int_eq_0_iff)
    then have dv0: "real_of_int (n * (n - 1)) / 2 \<noteq> 0" by simp
    show "print_pmfg_stats num_edges n =
              (Some (real_of_int num_edges / real_of_int (3 * n - 6) * 100),
               Some (real_of_int num_edges / (real_of_int (n * (n - 1)) / 2)))"
      unfolding print_pmfg_stats_def mp dv by (simp only: mp0 dv0 if_False)
  qed
  have e: "max_planar_edges 2 = 0" "max_planar_edges 1 = - 3"
    "density_divisor 2 = 1" "density_divisor 1 = 0"
    by (simp_all add: max_planar_edges_def density_divisor_def int32_def)
  have f: "print_pmfg_stats num_edges 2 = (None, Some (real_of_int num_edges))"
    "print_pmfg_stats num_edges 1 = (Some (real_of_int num_edges / (- 3) * 100), None)"
    by (simp_all add: print_pmfg_stats_def e)
  have g: "print_pmfg_stats (numberOfEdges (create_pmfg isPlanar 2 edges)) 2 = (None, Some 0)"
    by (simp add: create_pmfg_two_nodes numberOfEdges_def print_pmfg_stats_def e)
  show ?thesis using a b c d e(1,2) f g by simp
qed

theorem stats_divisors_witness:
  "(- 2147483648 :: int) \<le> 4 \<and> (4::int) \<le> 2147483647 \<and>
   print_pmfg_stats 6 4 = (Some 100, Some 1) \<and>
   fst (print_pmfg_stats 6 4) \<noteq> None \<and> snd (print_pmfg_stats 6 4) \<noteq> None"
  using stats_divisors[where n = 4 and num_edges = 6 and isPlanar = always_planar
      and edges = "[] :: real Edge list"]
  by simp

end
